theory Spec2Isabelle
  imports Complex_Main "HOL-Library.Log_Nat"
begin

section \<open>Values and exceptions\<close>

text \<open>
  The decoded response bodies of \<^verbatim>\<open>pages.py\<close> are Python objects built by a JSON
  decoder. A dictionary is an association list read with \<open>map_of\<close>. Numbers are the
  integers of the response schema (\<^verbatim>\<open>count: int\<close>), of any size, as Python's are.
\<close>

datatype json =
    JNull
  | JBool bool
  | JInt int
  | JStr string
  | JList "json list"
  | JObj "(string \<times> json) list"

datatype exn =
    StopIteration
  | KeyError
  | TypeError
  | IndexError
  | OverflowError
  | AttributeError
  | ValueError string
  | RuntimeError string
  | OtherError string

text \<open>\<^verbatim>\<open>d[k]\<close> with a string key: a dictionary raises KeyError on a missing key, every other
  value raises TypeError (None, numbers and booleans are not subscriptable; strings and
  lists want integer indices).\<close>

fun getitem :: "json \<Rightarrow> string \<Rightarrow> exn + json" where
  "getitem (JObj kvs) k = (case map_of kvs k of None \<Rightarrow> Inl KeyError | Some x \<Rightarrow> Inr x)"
| "getitem JNull k = Inl TypeError"
| "getitem (JBool b) k = Inl TypeError"
| "getitem (JInt i) k = Inl TypeError"
| "getitem (JStr s) k = Inl TypeError"
| "getitem (JList xs) k = Inl TypeError"

text \<open>\<^verbatim>\<open>d[0]\<close>: the first element of a list or string, IndexError when it is empty; a
  decoded dictionary has string keys only, so the integer key is missing.\<close>

fun getfirst :: "json \<Rightarrow> exn + json" where
  "getfirst (JList []) = Inl IndexError"
| "getfirst (JList (x # xs)) = Inr x"
| "getfirst (JStr []) = Inl IndexError"
| "getfirst (JStr (c # cs)) = Inr (JStr [c])"
| "getfirst (JObj kvs) = Inl KeyError"
| "getfirst JNull = Inl TypeError"
| "getfirst (JBool b) = Inl TypeError"
| "getfirst (JInt i) = Inl TypeError"

text \<open>A chain of subscripts \<^verbatim>\<open>d[k1][k2]...\<close>, left to right, stopping at the first
  exception.\<close>

fun path :: "json \<Rightarrow> string list \<Rightarrow> exn + json" where
  "path j [] = Inr j"
| "path j (k # ks) = (case getitem j k of Inl e \<Rightarrow> Inl e | Inr x \<Rightarrow> path x ks)"

text \<open>Python's truth value of an object, as \<^verbatim>\<open>not x\<close> and \<^verbatim>\<open>if x\<close> read it.\<close>

fun truthy :: "json \<Rightarrow> bool" where
  "truthy JNull = False"
| "truthy (JBool b) = b"
| "truthy (JInt i) = (i \<noteq> 0)"
| "truthy (JStr s) = (s \<noteq> [])"
| "truthy (JList xs) = (xs \<noteq> [])"
| "truthy (JObj kvs) = (kvs \<noteq> [])"

section \<open>The page iterator\<close>

definition PAGE_SIZE :: int where
  "PAGE_SIZE = 200"

definition BASE_URL :: string where
  "BASE_URL = ''https://www.instagram.com/graphql/query/''"

text \<open>
  Python 3's \<^verbatim>\<open>c / self.PAGE_SIZE\<close> on integers is a double: the one nearest to the
  exact quotient, ties to the even significand, and OverflowError when that is beyond
  the largest double. A double is written here as a pair \<open>(m, p)\<close> for the value
  \<open>m * 2 ^ p\<close>, with a significand of 53 bits. The divisor is the positive page size
  and the dividend an integer, so that the quotient is zero or at least 1 / 200 in
  magnitude: no quotient is subnormal.
\<close>

text \<open>The integer nearest to \<open>n / d\<close> for a positive \<open>d\<close>, ties to even.\<close>

definition half_even :: "int \<Rightarrow> int \<Rightarrow> int" where
  "half_even n d =
     (let k = n div d; r = n mod d
      in if 2 * r < d then k else if d < 2 * r then k + 1 else if even k then k else k + 1)"

text \<open>The binary exponent of \<open>a / b\<close> for positive \<open>a\<close> and \<open>b\<close>: the \<open>e\<close> with
  \<open>2 ^ e \<le> a / b < 2 ^ (e + 1)\<close>, read off the bit length of the quotient scaled to be at
  least 1.\<close>

definition quotient_exponent :: "int \<Rightarrow> int \<Rightarrow> int" where
  "quotient_exponent a b = bitlen ((a * 2 ^ nat (bitlen b)) div b) - 1 - bitlen b"

definition true_divide :: "int \<Rightarrow> int \<Rightarrow> exn + int \<times> int" where
  "true_divide a b =
     (if a = 0 then Inr (0, 0)
      else let p = quotient_exponent \<bar>a\<bar> b - 52;
               m = (if 0 \<le> p then half_even \<bar>a\<bar> (b * 2 ^ nat p)
                    else half_even (\<bar>a\<bar> * 2 ^ nat (- p)) b)
           in if 0 \<le> p \<and> 2 ^ 1024 \<le> m * 2 ^ nat p then Inl OverflowError
              else Inr (sgn a * m, p))"

text \<open>\<^verbatim>\<open>math.ceil\<close> of a double, an integer.\<close>

definition py_ceil :: "int \<times> int \<Rightarrow> int" where
  "py_ceil x =
     (case x of (m, p) \<Rightarrow> if 0 \<le> p then m * 2 ^ nat p else - ((- m) div 2 ^ nat (- p)))"

text \<open>
  \<^verbatim>\<open>int(math.ceil(c / self.PAGE_SIZE))\<close>: a boolean is an integer in Python; every
  other value that is not a number raises TypeError on the division.
\<close>

fun pages_of_count :: "json \<Rightarrow> exn + int" where
  "pages_of_count (JInt c) =
     (case true_divide c PAGE_SIZE of Inl e \<Rightarrow> Inl e | Inr x \<Rightarrow> Inr (py_ceil x))"
| "pages_of_count (JBool b) =
     (case true_divide (if b then 1 else 0) PAGE_SIZE of Inl e \<Rightarrow> Inl e | Inr x \<Rightarrow> Inr (py_ceil x))"
| "pages_of_count JNull = Inl TypeError"
| "pages_of_count (JStr s) = Inl TypeError"
| "pages_of_count (JList xs) = Inl TypeError"
| "pages_of_count (JObj kvs) = Inl TypeError"

text \<open>The two concrete iterators: \<^verbatim>\<open>HashtagIterator(hashtag, ...)\<close> and
  \<^verbatim>\<open>ProfileIterator(owner_id, ...)\<close>.\<close>

datatype variant = Hashtag string | Profile json

fun section_generic :: "variant \<Rightarrow> string" where
  "section_generic (Hashtag h) = ''hashtag''"
| "section_generic (Profile i) = ''user''"

fun section_media :: "variant \<Rightarrow> string" where
  "section_media (Hashtag h) = ''edge_hashtag_to_media''"
| "section_media (Profile i) = ''edge_owner_to_timeline_media''"

fun getparams :: "variant \<Rightarrow> json \<Rightarrow> json" where
  "getparams (Hashtag h) c =
     JObj [(''tag_name'', JStr h), (''first'', JInt PAGE_SIZE), (''after'', c)]"
| "getparams (Profile i) c =
     JObj [(''id'', i), (''first'', JInt PAGE_SIZE), (''after'', c)]"

text \<open>\<^verbatim>\<open>self.URL.format(json_params)\<close>.\<close>

fun URL :: "variant \<Rightarrow> string \<Rightarrow> string" where
  "URL (Hashtag h) p = BASE_URL @ ''?query_id=17882293912014529&variables='' @ p"
| "URL (Profile i) p =
     BASE_URL @ ''?query_hash=472f257a40c653c64c666ce877d59d2b&variables='' @ p"

text \<open>
  The library functions the loader calls and this repository does not define:
  \<^verbatim>\<open>json.dumps(params, separators=(',', ':'))\<close>, the lowercase
  \<^verbatim>\<open>hashlib.md5(...).hexdigest()\<close>, and the text \<^verbatim>\<open>str.format\<close> gives for a value
  that is not a string.
\<close>

record ext =
  dumps :: "json \<Rightarrow> string"
  md5hex :: "string \<Rightarrow> string"
  render :: "json \<Rightarrow> string"

fun py_format :: "ext \<Rightarrow> json \<Rightarrow> string" where
  "py_format X (JStr s) = s"
| "py_format X j = render X j"

text \<open>What \<^verbatim>\<open>session.get(url)\<close> followed by \<^verbatim>\<open>res.json()\<close> gives: a decoded body,
  or an exception of the transport or the decoder. The server is a function of the
  request's number.\<close>

datatype response = Body json | Fails exn

record request =
  req_url :: string
  req_headers :: "string \<rightharpoonup> string"
  req_cursor :: json

text \<open>
  The iterator's fields, with the headers of the session it borrows. \<open>gen_closed\<close> is the
  state of the generator \<^verbatim>\<open>self._data_it\<close>: a generator that an exception has left is
  closed, and \<^verbatim>\<open>next\<close> on it raises StopIteration. \<open>sent\<close> lists the requests sent
  and \<open>slept\<close> adds up the arguments of \<^verbatim>\<open>time.sleep\<close>.
\<close>

record iter =
  headers :: "string \<rightharpoonup> string"
  rhx :: json
  finished :: bool
  cursor :: json
  current_page :: nat
  total_pages :: "int option"
  done_pages :: int
  gen_closed :: bool
  sent :: "request list"
  slept :: nat

definition init_iter :: "(string \<rightharpoonup> string) \<Rightarrow> json \<Rightarrow> iter" where
  "init_iter hs r =
     \<lparr>headers = hs, rhx = r, finished = False, cursor = JNull, current_page = 0,
      total_pages = None, done_pages = 0, gen_closed = False, sent = [], slept = 0\<rparr>"

text \<open>The request one pass of the loader's loop sends, and the session headers after
  the signature is written.\<close>

definition sign_headers :: "ext \<Rightarrow> variant \<Rightarrow> string \<Rightarrow> iter \<Rightarrow> (string \<rightharpoonup> string)" where
  "sign_headers X v csrf st =
     (headers st)(''x-instagram-gis'' \<mapsto>
        md5hex X (py_format X (rhx st) @ '':'' @ csrf @ '':'' @ dumps X (getparams v (cursor st))))"

definition mk_request :: "ext \<Rightarrow> variant \<Rightarrow> string \<Rightarrow> iter \<Rightarrow> request" where
  "mk_request X v csrf st =
     \<lparr>req_url = URL v (dumps X (getparams v (cursor st))),
      req_headers = sign_headers X v csrf st,
      req_cursor = cursor st\<rparr>"

text \<open>The loader's inner \<^verbatim>\<open>try\<close> block: the value it gives \<^verbatim>\<open>self._total\<close>, which
  is the number of pages for the count of the body, and 0 when KeyError or TypeError is
  raised on the way; or the exception that leaves the block.\<close>

definition estimate :: "variant \<Rightarrow> json \<Rightarrow> exn + int" where
  "estimate v data =
     (case path data [''data'', section_generic v, section_media v, ''count''] of
        Inl e \<Rightarrow> Inr 0
      | Inr c \<Rightarrow>
          (case pages_of_count c of
             Inl e \<Rightarrow> if e = KeyError \<or> e = TypeError then Inr 0 else Inl e
           | Inr t \<Rightarrow> Inr t))"

text \<open>
  \<^verbatim>\<open>_page_loader\<close>, from one \<^verbatim>\<open>next\<close> on the generator to its \<^verbatim>\<open>yield\<close>. The loop
  has no bound: the first argument is the number of passes allowed, and the result
  \<open>None\<close> says that the loader is still retrying after them.
\<close>

fun page_loader :: "ext \<Rightarrow> variant \<Rightarrow> (nat \<Rightarrow> response) \<Rightarrow> nat \<Rightarrow> iter \<Rightarrow> (exn + json) option \<times> iter" where
  "page_loader X v env 0 st = (None, st)"
| "page_loader X v env (Suc n) st =
     (case headers st ''X-CSRFToken'' of
        None \<Rightarrow> page_loader X v env n (st\<lparr>slept := slept st + 10\<rparr>)
      | Some csrf \<Rightarrow>
          (let st1 = st\<lparr>headers := sign_headers X v csrf st,
                        sent := sent st @ [mk_request X v csrf st]\<rparr>
           in case env (length (sent st)) of
                Fails e \<Rightarrow>
                  if e = KeyError then page_loader X v env n (st1\<lparr>slept := slept st1 + 10\<rparr>)
                  else (Some (Inl e), st1)
              | Body data \<Rightarrow>
                  (case estimate v data of
                     Inl e \<Rightarrow>
                       if e = KeyError then page_loader X v env n (st1\<lparr>slept := slept st1 + 10\<rparr>)
                       else (Some (Inl e), st1)
                   | Inr t \<Rightarrow>
                       (let st2 = st1\<lparr>total_pages := Some t\<rparr>
                        in case getitem data ''data'' of
                             Inl e \<Rightarrow>
                               if e = KeyError
                               then page_loader X v env n (st2\<lparr>slept := slept st2 + 10\<rparr>)
                               else (Some (Inl e), st2)
                           | Inr d \<Rightarrow> (Some (Inr d), st2)))))"

text \<open>\<^verbatim>\<open>next(self._data_it)\<close>. An exception that leaves the generator closes it; a
  StopIteration raised inside the generator leaves it as RuntimeError.\<close>

definition gen_next :: "ext \<Rightarrow> variant \<Rightarrow> (nat \<Rightarrow> response) \<Rightarrow> nat \<Rightarrow> iter \<Rightarrow> (exn + json) option \<times> iter" where
  "gen_next X v env fuel st =
     (if gen_closed st then (Some (Inl StopIteration), st)
      else case page_loader X v env fuel st of
             (Some (Inl e), st') \<Rightarrow>
               (Some (Inl (if e = StopIteration
                           then RuntimeError ''generator raised StopIteration'' else e)),
                st'\<lparr>gen_closed := True\<rparr>)
           | (r, st') \<Rightarrow> (r, st'))"

text \<open>\<^verbatim>\<open>__length_hint__\<close>.\<close>

definition hint_value :: "iter \<Rightarrow> (exn + int) option \<times> iter" where
  "hint_value st = (Some (Inr (the (total_pages st) - done_pages st)), st)"

definition length_hint :: "ext \<Rightarrow> variant \<Rightarrow> (nat \<Rightarrow> response) \<Rightarrow> nat \<Rightarrow> iter \<Rightarrow> (exn + int) option \<times> iter" where
  "length_hint X v env fuel st =
     (if total_pages st = None then
        (case gen_next X v env fuel st of
           (None, st1) \<Rightarrow> (None, st1)
         | (Some (Inl e), st1) \<Rightarrow>
             if e = StopIteration \<or> e = TypeError then hint_value (st1\<lparr>total_pages := Some 0\<rparr>)
             else (Some (Inl e), st1)
         | (Some (Inr data), st1) \<Rightarrow>
             (case path data [section_generic v, section_media v, ''count''] of
                Inl e \<Rightarrow>
                  if e = StopIteration \<or> e = TypeError then hint_value (st1\<lparr>total_pages := Some 0\<rparr>)
                  else (Some (Inl e), st1)
              | Inr c \<Rightarrow>
                  (case pages_of_count c of
                     Inl e \<Rightarrow>
                       if e = StopIteration \<or> e = TypeError then hint_value (st1\<lparr>total_pages := Some 0\<rparr>)
                       else (Some (Inl e), st1)
                   | Inr t \<Rightarrow> hint_value (st1\<lparr>total_pages := Some t\<rparr>))))
      else hint_value st)"

text \<open>\<^verbatim>\<open>__next__\<close>.\<close>

definition py_next :: "ext \<Rightarrow> variant \<Rightarrow> (nat \<Rightarrow> response) \<Rightarrow> nat \<Rightarrow> iter \<Rightarrow> (exn + json) option \<times> iter" where
  "py_next X v env fuel st =
     (if finished st then (Some (Inl StopIteration), st)
      else case gen_next X v env fuel st of
             (None, st1) \<Rightarrow> (None, st1)
           | (Some (Inl e), st1) \<Rightarrow> (Some (Inl e), st1)
           | (Some (Inr data), st1) \<Rightarrow>
               (case path data [section_generic v, section_media v] of
                  Inl e \<Rightarrow> (Some (Inl StopIteration), st1\<lparr>finished := True\<rparr>)
                | Inr media_info \<Rightarrow>
                    (case path media_info [''page_info'', ''has_next_page''] of
                       Inl e \<Rightarrow> (Some (Inl e), st1)
                     | Inr h \<Rightarrow>
                         if \<not> truthy h then
                           (Some (getitem data (section_generic v)), st1\<lparr>finished := True\<rparr>)
                         else
                           (case getitem media_info ''edges'' of
                              Inl e \<Rightarrow> (Some (Inl e), st1)
                            | Inr es \<Rightarrow>
                                if \<not> truthy es then
                                  (Some (Inl StopIteration), st1\<lparr>finished := True\<rparr>)
                                else
                                  (case path media_info [''page_info'', ''end_cursor''] of
                                     Inl e \<Rightarrow> (Some (Inl e), st1)
                                   | Inr c \<Rightarrow>
                                       (Some (getitem data (section_generic v)),
                                        st1\<lparr>cursor := c, current_page := current_page st1 + 1\<rparr>))))))"

text \<open>A caller's calls on the iterator, one after the other, each with the number of
  passes its loader is allowed. A call that does not return keeps the later ones from
  happening.\<close>

datatype call = Next | LengthHint

fun do_call :: "ext \<Rightarrow> variant \<Rightarrow> (nat \<Rightarrow> response) \<Rightarrow> nat \<Rightarrow> call \<Rightarrow> iter \<Rightarrow> iter option" where
  "do_call X v env fuel Next st =
     (case py_next X v env fuel st of (None, st') \<Rightarrow> None | (Some r, st') \<Rightarrow> Some st')"
| "do_call X v env fuel LengthHint st =
     (case length_hint X v env fuel st of (None, st') \<Rightarrow> None | (Some r, st') \<Rightarrow> Some st')"

fun run :: "ext \<Rightarrow> variant \<Rightarrow> (nat \<Rightarrow> response) \<Rightarrow> (call \<times> nat) list \<Rightarrow> iter \<Rightarrow> iter option" where
  "run X v env [] st = Some st"
| "run X v env ((c, fuel) # cs) st =
     (case do_call X v env fuel c st of None \<Rightarrow> None | Some st' \<Rightarrow> run X v env cs st')"

text \<open>A \<^verbatim>\<open>for\<close> loop over the iterator that makes at most \<open>n\<close> calls of \<^verbatim>\<open>__next__\<close>:
  the pages returned, the exception that ended the loop if one did, and the state.\<close>

fun drain :: "ext \<Rightarrow> variant \<Rightarrow> (nat \<Rightarrow> response) \<Rightarrow> nat \<Rightarrow> nat \<Rightarrow> iter \<Rightarrow> json list \<times> exn option \<times> iter" where
  "drain X v env fuel 0 st = ([], None, st)"
| "drain X v env fuel (Suc n) st =
     (case py_next X v env fuel st of
        (None, st') \<Rightarrow> ([], None, st')
      | (Some (Inl e), st') \<Rightarrow> ([], Some e, st')
      | (Some (Inr p), st') \<Rightarrow>
          (case drain X v env fuel n st' of (ps, r, st'') \<Rightarrow> (p # ps, r, st'')))"

section \<open>Resolving a profile\<close>

record cookie =
  ck_name :: string
  ck_value :: "string option"

record session =
  sess_headers :: "string \<rightharpoonup> string"
  sess_cookies :: "cookie list"

definition and_then :: "exn + 'a \<Rightarrow> ('a \<Rightarrow> exn + 'b) \<Rightarrow> exn + 'b" where
  "and_then r f = (case r of Inl e \<Rightarrow> Inl e | Inr x \<Rightarrow> f x)"

text \<open>
  \<^verbatim>\<open>_user_data\<close>. Its argument \<open>shared\<close> is \<^verbatim>\<open>session.get(url)\<close> followed by
  \<^verbatim>\<open>get_shared_data(res.text)\<close>, a function of \<^verbatim>\<open>_utils\<close> that takes the embedded
  payload out of the page: the decoded payload or the exception raised.
\<close>

definition user_data :: "(string \<Rightarrow> exn + json) \<Rightarrow> string \<Rightarrow> exn + json" where
  "user_data shared username =
     (case shared (''https://www.instagram.com/'' @ username @ ''/'') of
        Inl (ValueError m) \<Rightarrow> Inl (ValueError (''account not found: '' @ username))
      | Inl AttributeError \<Rightarrow> Inl (ValueError (''account not found: '' @ username))
      | Inl e \<Rightarrow> Inl e
      | Inr d \<Rightarrow> Inr d)"

text \<open>\<^verbatim>\<open>next((ck.value for ck in session.cookies if ck.name=="ds_user_id"), None)\<close>.\<close>

definition connected_id :: "cookie list \<Rightarrow> json" where
  "connected_id cks =
     (case filter (\<lambda>ck. ck_name ck = ''ds_user_id'') cks of
        [] \<Rightarrow> JNull
      | ck # rest \<Rightarrow> (case ck_value ck of None \<Rightarrow> JNull | Some s \<Rightarrow> JStr s))"

definition private_msg :: "string \<Rightarrow> string" where
  "private_msg username = ''user '' @ [CHR 0x27] @ username @ [CHR 0x27] @ '' is private''"

text \<open>\<^verbatim>\<open>from_username\<close>: the iterator built, with its owner id, or the exception.\<close>

definition from_username :: "(string \<Rightarrow> exn + json) \<Rightarrow> session \<Rightarrow> string \<Rightarrow> exn + variant \<times> iter" where
  "from_username shared sess username =
     and_then (user_data shared username) (\<lambda>ud.
     and_then (path ud [''entry_data'', ''ProfilePage'']) (\<lambda>pp.
     and_then (getfirst pp) (\<lambda>p0.
     and_then (path p0 [''graphql'', ''user'']) (\<lambda>data.
     and_then (getitem data ''is_private'') (\<lambda>priv.
     and_then (if truthy priv
               then and_then (getitem data ''followed_by_viewer'') (\<lambda>f. Inr (\<not> truthy f))
               else Inr False) (\<lambda>guarded.
     and_then (if guarded
               then and_then (getitem data ''id'') (\<lambda>i.
                      if connected_id (sess_cookies sess) \<noteq> i
                      then Inl (RuntimeError (private_msg username))
                      else Inr ())
               else Inr ()) (\<lambda>u.
     and_then (getitem data ''id'') (\<lambda>i.
     and_then (getitem ud ''rhx_gis'') (\<lambda>r.
       Inr (Profile i, init_iter (sess_headers sess) r))))))))))"

section \<open>Auxiliary notions\<close>

text \<open>A state in which the flag \<^verbatim>\<open>_finished\<close> is set only after a page has been
  loaded, so that the estimate \<^verbatim>\<open>_total\<close> is no longer \<^verbatim>\<open>None\<close>.\<close>

definition settled :: "iter \<Rightarrow> bool" where
  "settled st = (finished st \<longrightarrow> total_pages st \<noteq> None)"

text \<open>
  A well-formed page of the response schema, as the iterator reads it: the
  generic-section object and, under its media section, \<^verbatim>\<open>page_info.has_next_page\<close>,
  \<^verbatim>\<open>edges\<close> and \<^verbatim>\<open>page_info.end_cursor\<close>.
\<close>

record view =
  pv_generic :: json
  pv_has_next :: json
  pv_edges :: json
  pv_end_cursor :: json

definition page_view :: "variant \<Rightarrow> json \<Rightarrow> view option" where
  "page_view v body =
     (case (path body [''data'', section_generic v],
            path body [''data'', section_generic v, section_media v, ''page_info'', ''has_next_page''],
            path body [''data'', section_generic v, section_media v, ''edges''],
            path body [''data'', section_generic v, section_media v, ''page_info'', ''end_cursor'']) of
        (Inr g, Inr h, Inr es, Inr c) \<Rightarrow>
          Some \<lparr>pv_generic = g, pv_has_next = h, pv_edges = es, pv_end_cursor = c\<rparr>
      | _ \<Rightarrow> None)"

text \<open>A body whose count, if it has one, does not overflow the division of the loader.\<close>

definition count_fits :: "variant \<Rightarrow> json \<Rightarrow> bool" where
  "count_fits v body = (case estimate v body of Inl e \<Rightarrow> False | Inr t \<Rightarrow> True)"

text \<open>A sequence of well-formed pages whose counts fit, of which every page but the last
  has a next page and edges, and the last has no next page.\<close>

fun chain_ok :: "variant \<Rightarrow> json list \<Rightarrow> bool" where
  "chain_ok v [] = False"
| "chain_ok v [p] =
     (case page_view v p of
        None \<Rightarrow> False
      | Some pv \<Rightarrow> count_fits v p \<and> \<not> truthy (pv_has_next pv))"
| "chain_ok v (p # q # qs) =
     (case page_view v p of
        None \<Rightarrow> False
      | Some pv \<Rightarrow>
          count_fits v p \<and> truthy (pv_has_next pv) \<and> truthy (pv_edges pv) \<and> chain_ok v (q # qs))"

text \<open>A response on which a pass of the loader's loop raises KeyError: the transport or
  the decoder raises it, or the decoded body is a dictionary without \<^verbatim>\<open>data\<close>.\<close>

fun missing_key :: "response \<Rightarrow> bool" where
  "missing_key (Fails e) = (e = KeyError)"
| "missing_key (Body b) = (getitem b ''data'' = Inl KeyError)"

text \<open>A request that carries the session's CSRF token and, as signature, the digest of
  the token \<^verbatim>\<open>rhx\<close>, the CSRF token and the serialized parameters of the request's
  cursor, joined by colons; its URL holds the same serialization.\<close>

definition signed :: "ext \<Rightarrow> variant \<Rightarrow> json \<Rightarrow> request \<Rightarrow> bool" where
  "signed X v token q =
     (case req_headers q ''X-CSRFToken'' of
        None \<Rightarrow> False
      | Some csrf \<Rightarrow>
          req_headers q ''x-instagram-gis'' =
            Some (md5hex X (py_format X token @ '':'' @ csrf @ '':'' @ dumps X (getparams v (req_cursor q))))
          \<and> req_url q = URL v (dumps X (getparams v (req_cursor q))))"

text \<open>Concrete library functions, session headers, a hashtag page and a server that
  answers with the bodies of a list and is unreachable afterwards, for evaluating the
  definitions on examples.\<close>

definition demo_ext :: ext where
  "demo_ext = \<lparr>dumps = (\<lambda>j. ''{}''), md5hex = (\<lambda>s. ''md5('' @ s @ '')''), render = (\<lambda>j. ''?'')\<rparr>"

definition demo_headers :: "string \<rightharpoonup> string" where
  "demo_headers = [''X-CSRFToken'' \<mapsto> ''tok'']"

definition demo_page :: "int \<Rightarrow> bool \<Rightarrow> json list \<Rightarrow> string \<Rightarrow> json" where
  "demo_page c h es cur =
     JObj [(''data'', JObj [(''hashtag'', JObj [(''edge_hashtag_to_media'',
       JObj [(''count'', JInt c),
             (''page_info'', JObj [(''has_next_page'', JBool h), (''end_cursor'', JStr cur)]),
             (''edges'', JList es)])])])]"

definition demo_env :: "json list \<Rightarrow> nat \<Rightarrow> response" where
  "demo_env bs n = (if n < length bs then Body (bs ! n) else Fails (OtherError ''unreachable''))"

definition demo_page_no_count :: json where
  "demo_page_no_count =
     JObj [(''data'', JObj [(''hashtag'', JObj [(''edge_hashtag_to_media'',
       JObj [(''page_info'', JObj [(''has_next_page'', JBool True), (''end_cursor'', JStr ''c9'')]),
             (''edges'', JList [JNull])])])])]"

text \<open>The payload of a profile page with the owner id 42, and a session with given
  cookies.\<close>

definition demo_profile :: "bool \<Rightarrow> bool \<Rightarrow> json" where
  "demo_profile priv fol =
     JObj [(''entry_data'', JObj [(''ProfilePage'', JList [JObj [(''graphql'',
             JObj [(''user'', JObj [(''id'', JStr ''42''), (''is_private'', JBool priv),
                                    (''followed_by_viewer'', JBool fol)])])]])]),
           (''rhx_gis'', JStr ''rhx'')]"

definition demo_session :: "cookie list \<Rightarrow> session" where
  "demo_session cks = \<lparr>sess_headers = demo_headers, sess_cookies = cks\<rparr>"

text \<open>A count beyond the range of doubles.\<close>

definition huge_count :: int where
  "huge_count = 10 ^ 400"

section \<open>The division of the count\<close>

lemma half_even_bounds:
  assumes "0 < d"
  shows "2 * n - d \<le> 2 * d * half_even n d \<and> 2 * d * half_even n d \<le> 2 * n + d"
proof -
  define k where "k = n div d"
  define r where "r = n mod d"
  have "n = d * k + r" "0 \<le> r" "r < d"
    using assms by (simp_all add: k_def r_def)
  then show ?thesis
    unfolding half_even_def Let_def k_def [symmetric] r_def [symmetric]
    by (auto simp: algebra_simps)
qed

lemma ceil_by_bounds:
  fixes m K N :: int
  assumes "0 < K" "(N - 1) * K < m" "m \<le> N * K"
  shows "- ((- m) div K) = N"
proof -
  have "(- m) div K = - N"
  proof (rule int_div_pos_eq [where r = "N * K - m"])
    show "- m = K * (- N) + (N * K - m)" by (simp add: algebra_simps)
    show "0 \<le> N * K - m" using assms(3) by simp
    show "N * K - m < K" using assms(2) by (simp add: algebra_simps)
  qed
  then show ?thesis by simp
qed

text \<open>Below \<open>200 * 2 ^ 46\<close> the doubles around the quotient are less than 1 / 200 apart, and
  the ceiling of the double is the ceiling of the exact quotient.\<close>

lemma pages_of_count_small:
  assumes "0 \<le> c" "c < 200 * 2 ^ 46"
  shows "pages_of_count (JInt c) = Inr (- ((- c) div 200))"
proof (cases "c = 0")
  case True
  then show ?thesis by (simp add: true_divide_def py_ceil_def)
next
  case False
  with assms have pos: "0 < c" by simp
  define X where "X = (c * 2 ^ nat (bitlen 200)) div 200"
  define L where "L = bitlen X"
  have b200: "bitlen 200 = 8" by code_simp
  have "X < 2 ^ 54"
  proof -
    have "(c * 256) div 200 * 200 \<le> c * 256" by presburger
    then have "X * 200 \<le> c * 256" unfolding X_def b200 by simp
    with assms(2) show ?thesis by simp
  qed
  then have L: "L \<le> 54" unfolding L_def by (simp add: bitlen_le_iff_power)
  define k where "k = nat (61 - L)"
  define K :: int where "K = 2 ^ k"
  have k7: "7 \<le> k" using L by (simp add: k_def)
  have "(2::int) ^ 7 \<le> 2 ^ k" using k7 by (intro power_increasing) simp_all
  then have K: "128 \<le> K" by (simp add: K_def)
  have p: "quotient_exponent c 200 = L - 9"
    by (simp add: quotient_exponent_def b200 X_def L_def)
  define m where "m = half_even (c * K) 200"
  have td: "true_divide c 200 = Inr (m, L - 61)"
    using pos L False by (simp add: true_divide_def p Let_def m_def K_def k_def)
  define N where "N = - ((- c) div 200)"
  have N: "(N - 1) * 200 < c" "c \<le> N * 200"
    unfolding N_def by presburger+
  from half_even_bounds [of 200 "c * K"]
  have hb: "2 * (c * K) - 200 \<le> 400 * m" "400 * m \<le> 2 * (c * K) + 200"
    by (simp_all add: m_def)
  have "((N - 1) * 200 + 1) * K \<le> c * K"
    using N(1) K by (intro mult_right_mono) simp_all
  moreover have "((N - 1) * 200 + 1) * K = 200 * ((N - 1) * K) + K"
    by (simp add: algebra_simps)
  ultimately have "200 * ((N - 1) * K) + K \<le> c * K" by simp
  with hb(1) K have lo: "(N - 1) * K < m" by linarith
  have "c * K \<le> (N * 200) * K"
    using N(2) K by (intro mult_right_mono) simp_all
  moreover have "(N * 200) * K = 200 * (N * K)" by simp
  ultimately have "c * K \<le> 200 * (N * K)" by simp
  with hb(2) have hi: "m \<le> N * K" by linarith
  have "- ((- m) div K) = N"
    using K lo hi by (intro ceil_by_bounds) simp_all
  then show ?thesis
    using L by (simp add: PAGE_SIZE_def td py_ceil_def N_def K_def k_def)
qed

lemma pages_of_count_ceiling:
  assumes "0 \<le> c" "c < 200 * 2 ^ 46"
  shows "pages_of_count (JInt c) = Inr \<lceil>real_of_int c / real_of_int PAGE_SIZE\<rceil>"
proof -
  have "\<lceil>real_of_int c / real_of_int PAGE_SIZE\<rceil> = - \<lfloor>real_of_int (- c) / real_of_int PAGE_SIZE\<rfloor>"
    by (simp add: ceiling_def)
  also have "\<dots> = - ((- c) div PAGE_SIZE)"
    by (simp only: floor_divide_of_int_eq)
  finally show ?thesis
    using pages_of_count_small [OF assms] by (simp add: PAGE_SIZE_def)
qed

text \<open>Above it the double is rounded, and beyond the largest double the division
  raises.\<close>

lemma pages_of_count_rounded:
  "pages_of_count (JInt 20000000000000001) = Inr 100000000000000"
  by code_simp

lemma pages_of_count_huge:
  "pages_of_count (JInt huge_count) = Inl OverflowError"
  by code_simp

lemma pages_of_count_raises:
  "pages_of_count c = Inl e \<Longrightarrow> e = TypeError \<or> e = OverflowError"
  by (cases c) (auto simp: true_divide_def Let_def split: if_splits sum.splits)

declare pages_of_count.simps(1,2) [simp del]

lemma estimate_no_data:
  "getitem body ''data'' = Inl e \<Longrightarrow> estimate v body = Inr 0"
  by (simp add: estimate_def)

lemma estimate_raises:
  "estimate v body = Inl e \<Longrightarrow> e = OverflowError"
  by (auto simp: estimate_def split: sum.splits if_splits dest: pages_of_count_raises)

lemma count_fits_estimate:
  "count_fits v body \<Longrightarrow> \<exists>t. estimate v body = Inr t"
  by (simp add: count_fits_def split: sum.splits)

text \<open>A body with no count, or with an integer count from 0 up to \<open>200 * 2 ^ 46\<close>, fits.\<close>

lemma count_fits_small:
  assumes "path body [''data'', section_generic v, section_media v, ''count''] = Inr (JInt c)"
    and "0 \<le> c" "c < 200 * 2 ^ 46"
  shows "count_fits v body"
  unfolding count_fits_def estimate_def assms(1)
  by (simp add: pages_of_count_small [OF assms(2,3)])

lemma count_fits_absent:
  assumes "path body [''data'', section_generic v, section_media v, ''count''] = Inl e"
  shows "count_fits v body"
  unfolding count_fits_def estimate_def assms by simp

lemmas demo_defs = demo_ext_def demo_headers_def demo_page_def init_iter_def py_next_def
  gen_next_def length_hint_def hint_value_def sign_headers_def mk_request_def PAGE_SIZE_def
  estimate_def pages_of_count_small

section \<open>Properties of the page loader\<close>

lemma loader_frame:
  "finished (snd (page_loader X v env n st)) = finished st
   \<and> cursor (snd (page_loader X v env n st)) = cursor st
   \<and> rhx (snd (page_loader X v env n st)) = rhx st
   \<and> current_page (snd (page_loader X v env n st)) = current_page st
   \<and> done_pages (snd (page_loader X v env n st)) = done_pages st
   \<and> gen_closed (snd (page_loader X v env n st)) = gen_closed st
   \<and> headers (snd (page_loader X v env n st)) ''X-CSRFToken'' = headers st ''X-CSRFToken''"
  by (induction n arbitrary: st)
     (auto simp: Let_def sign_headers_def split: option.splits response.splits sum.splits)

lemma loader_sent_prefix:
  "\<exists>new. sent (snd (page_loader X v env n st)) = sent st @ new"
proof (induction n arbitrary: st)
  case 0
  show ?case by simp
next
  case (Suc n)
  have step: "\<exists>new. sent (snd (page_loader X v env n st2)) = sent st @ new"
    if "sent st2 = sent st @ r" for st2 r
    using Suc.IH [of st2] that by auto
  show ?case
    by (auto simp: Let_def intro!: step split: option.splits response.splits sum.splits)
qed

lemma loader_total_kept:
  "total_pages st \<noteq> None \<Longrightarrow> total_pages (snd (page_loader X v env n st)) \<noteq> None"
  by (induction n arbitrary: st)
     (auto simp: Let_def split: option.splits response.splits sum.splits)

lemma loader_yield:
  "page_loader X v env n st = (Some (Inr d), st') \<Longrightarrow>
     total_pages st' \<noteq> None \<and> length (sent st) < length (sent st')
     \<and> (\<exists>resp. env (length (sent st') - 1) = Body resp \<and> getitem resp ''data'' = Inr d)"
proof (induction n arbitrary: st)
  case 0
  then show ?case by simp
next
  case (Suc n)
  have step: "total_pages st' \<noteq> None \<and> length (sent st) < length (sent st')
     \<and> (\<exists>resp. env (length (sent st') - 1) = Body resp \<and> getitem resp ''data'' = Inr d)"
    if "page_loader X v env n st2 = (Some (Inr d), st')" "length (sent st) \<le> length (sent st2)" for st2
    using Suc.IH [of st2] that by auto
  from Suc.prems show ?case
    by (auto simp: Let_def dest!: step split: option.splits response.splits sum.splits if_splits)
qed

section \<open>The finished flag\<close>

lemma gen_next_frame:
  "gen_next X v env n st = (r, st') \<Longrightarrow>
     finished st' = finished st \<and> cursor st' = cursor st \<and> done_pages st' = done_pages st
     \<and> (total_pages st \<noteq> None \<longrightarrow> total_pages st' \<noteq> None)"
  using loader_frame [of X v env n st] loader_total_kept [of st X v env n]
  by (auto simp: gen_next_def split: if_splits prod.splits option.splits sum.splits)

lemma gen_next_yield:
  "gen_next X v env n st = (Some (Inr d), st') \<Longrightarrow>
     total_pages st' \<noteq> None \<and> length (sent st) < length (sent st')
     \<and> (\<exists>resp. env (length (sent st') - 1) = Body resp \<and> getitem resp ''data'' = Inr d)"
  using loader_yield [of X v env n st d]
  by (auto simp: gen_next_def split: if_splits prod.splits option.splits sum.splits)

lemma py_next_settled:
  "py_next X v env n st = (r, st') \<Longrightarrow> settled st \<Longrightarrow> settled st'"
  unfolding py_next_def settled_def
  by (auto split: if_splits prod.splits option.splits sum.splits
           dest: gen_next_frame gen_next_yield)

lemma length_hint_settled:
  "length_hint X v env n st = (r, st') \<Longrightarrow> settled st \<Longrightarrow> settled st'"
  unfolding length_hint_def settled_def hint_value_def
  by (auto split: if_splits prod.splits option.splits sum.splits
           dest: gen_next_frame gen_next_yield)

lemma do_call_settled:
  "do_call X v env n c st = Some st' \<Longrightarrow> settled st \<Longrightarrow> settled st'"
  by (cases c)
     (auto split: prod.splits option.splits dest: py_next_settled length_hint_settled)

lemma run_settled:
  "run X v env cs st = Some st' \<Longrightarrow> settled st \<Longrightarrow> settled st'"
  by (induction X v env cs st rule: run.induct) (auto split: option.splits dest: do_call_settled)

lemma settled_init: "settled (init_iter hs r)"
  by (simp add: settled_def init_iter_def)

lemma finished_next: "finished st \<Longrightarrow> py_next X v env k st = (Some (Inl StopIteration), st)"
  by (simp add: py_next_def)

lemma finished_hint:
  "finished st \<Longrightarrow> settled st \<Longrightarrow>
     length_hint X v env k st = (Some (Inr (the (total_pages st) - done_pages st)), st)"
  by (auto simp: length_hint_def hint_value_def settled_def)

lemma finished_run:
  "finished st \<Longrightarrow> settled st \<Longrightarrow> run X v env cs st = Some st"
proof (induction cs)
  case Nil
  show ?case by simp
next
  case (Cons c cs)
  obtain k n where c: "c = (k, n)" by (cases c)
  from Cons show ?case
    unfolding c by (cases k) (simp_all add: finished_next finished_hint)
qed

text \<open>
  C6. In every state that a sequence of returning calls of \<^verbatim>\<open>__next__\<close> and
  \<^verbatim>\<open>__length_hint__\<close> reaches from a new iterator, once \<^verbatim>\<open>_finished\<close> is set,
  \<^verbatim>\<open>__next__\<close> raises StopIteration and \<^verbatim>\<open>__length_hint__\<close> returns a number, both
  leaving the whole state as it is, the list of requests sent included: no request is
  made. The same then holds after any further sequence of calls.
\<close>

theorem finished_is_terminal:
  assumes "run X v env cs (init_iter hs r) = Some st" and "finished st"
  shows "py_next X v env k st = (Some (Inl StopIteration), st)
       \<and> (\<exists>h. length_hint X v env k st = (Some (Inr h), st))
       \<and> (\<forall>cs'. run X v env cs' st = Some st)"
proof -
  have "settled st"
    using assms(1) settled_init by (rule run_settled)
  with assms(2) show ?thesis
    by (simp add: finished_next finished_hint finished_run)
qed


theorem finished_is_terminal_witness:
  "run demo_ext (Hashtag ''cats'') (\<lambda>n. Body (demo_page 3 False [JNull] ''c1'')) [(Next, 1)]
       (init_iter demo_headers (JStr ''rhx'')) \<noteq> None
   \<and> finished (the (run demo_ext (Hashtag ''cats'') (\<lambda>n. Body (demo_page 3 False [JNull] ''c1'')) [(Next, 1)]
       (init_iter demo_headers (JStr ''rhx''))))
   \<and> fst (py_next demo_ext (Hashtag ''cats'') (\<lambda>n. Body (demo_page 3 False [JNull] ''c1'')) 5
       (the (run demo_ext (Hashtag ''cats'') (\<lambda>n. Body (demo_page 3 False [JNull] ''c1'')) [(Next, 1)]
       (init_iter demo_headers (JStr ''rhx''))))) = Some (Inl StopIteration)"
proof -
  let ?env = "\<lambda>n::nat. Body (demo_page 3 False [JNull] ''c1'')"
  let ?r = "run demo_ext (Hashtag ''cats'') ?env [(Next, 1)] (init_iter demo_headers (JStr ''rhx''))"
  have a: "?r = Some (the ?r)" by (simp add: demo_defs)
  have b: "finished (the ?r)" by (simp add: demo_defs)
  have c: "?r \<noteq> None" by (simp add: demo_defs)
  have d: "py_next demo_ext (Hashtag ''cats'') ?env 5 (the ?r) = (Some (Inl StopIteration), the ?r)"
    using finished_is_terminal [OF a b, of 5] by (rule conjunct1)
  have e: "fst (py_next demo_ext (Hashtag ''cats'') ?env 5 (the ?r)) = Some (Inl StopIteration)"
    using d by (simp only: fst_conv)
  from c b e show ?thesis by (intro conjI)
qed

section \<open>Iterating over well-formed pages\<close>

lemma loader_on_body:
  assumes "headers st ''X-CSRFToken'' = Some csrf"
    and "env (length (sent st)) = Body body"
    and "estimate v body = Inr t"
    and "getitem body ''data'' = Inr d"
  shows "page_loader X v env (Suc f) st =
     (Some (Inr d), st\<lparr>headers := sign_headers X v csrf st,
                        sent := sent st @ [mk_request X v csrf st],
                        total_pages := Some t\<rparr>)"
  using assms by (simp add: Let_def)

lemma gen_next_on_body:
  assumes "\<not> gen_closed st" "headers st ''X-CSRFToken'' = Some csrf"
    and "env (length (sent st)) = Body body"
    and "estimate v body = Inr t"
    and "getitem body ''data'' = Inr d"
  shows "gen_next X v env (Suc f) st =
     (Some (Inr d), st\<lparr>headers := sign_headers X v csrf st,
                        sent := sent st @ [mk_request X v csrf st],
                        total_pages := Some t\<rparr>)"
  using assms(1) loader_on_body [where env = env and st = st, OF assms(2-5), of X f]
  by (simp add: gen_next_def)

lemma page_view_data:
  "page_view v body = Some pv \<Longrightarrow>
     \<exists>d mi pi. getitem body ''data'' = Inr d
       \<and> getitem d (section_generic v) = Inr (pv_generic pv)
       \<and> getitem (pv_generic pv) (section_media v) = Inr mi
       \<and> getitem mi ''page_info'' = Inr pi
       \<and> getitem pi ''has_next_page'' = Inr (pv_has_next pv)
       \<and> getitem mi ''edges'' = Inr (pv_edges pv)
       \<and> getitem pi ''end_cursor'' = Inr (pv_end_cursor pv)"
  by (auto simp: page_view_def split: sum.splits)

lemma next_on_page:
  assumes "\<not> finished st" "\<not> gen_closed st" "headers st ''X-CSRFToken'' = Some csrf"
    and "env (length (sent st)) = Body body"
    and "page_view v body = Some pv"
    and "estimate v body = Inr t"
  shows "py_next X v env (Suc f) st =
     (let st2 = st\<lparr>headers := sign_headers X v csrf st,
                    sent := sent st @ [mk_request X v csrf st],
                    total_pages := Some t\<rparr>
      in if \<not> truthy (pv_has_next pv) then (Some (Inr (pv_generic pv)), st2\<lparr>finished := True\<rparr>)
         else if \<not> truthy (pv_edges pv) then (Some (Inl StopIteration), st2\<lparr>finished := True\<rparr>)
         else (Some (Inr (pv_generic pv)),
               st2\<lparr>cursor := pv_end_cursor pv, current_page := current_page st + 1\<rparr>))"
proof -
  from page_view_data [OF assms(5)] obtain d mi pi where
    d: "getitem body ''data'' = Inr d"
    and g: "getitem d (section_generic v) = Inr (pv_generic pv)"
    and m: "getitem (pv_generic pv) (section_media v) = Inr mi"
    and p: "getitem mi ''page_info'' = Inr pi"
    and h: "getitem pi ''has_next_page'' = Inr (pv_has_next pv)"
    and e: "getitem mi ''edges'' = Inr (pv_edges pv)"
    and c: "getitem pi ''end_cursor'' = Inr (pv_end_cursor pv)"
    by blast
  show ?thesis
    using assms(1) g m p h e c
    by (simp add: py_next_def
          gen_next_on_body [where env = env and st = st, OF assms(2,3,4,6) d] Let_def)
qed

lemma drain_chain:
  "chain_ok v ps \<Longrightarrow> \<not> finished st \<Longrightarrow> \<not> gen_closed st \<Longrightarrow>
   headers st ''X-CSRFToken'' = Some csrf \<Longrightarrow>
   (\<forall>i<length ps. env (length (sent st) + i) = Body (ps ! i)) \<Longrightarrow>
   \<exists>st'. drain X v env (Suc f) (Suc (length ps)) st =
            (map (\<lambda>p. pv_generic (the (page_view v p))) ps, Some StopIteration, st')
     \<and> map req_cursor (sent st') =
         map req_cursor (sent st) @ cursor st # map (\<lambda>p. pv_end_cursor (the (page_view v p))) (butlast ps)"
proof (induction v ps arbitrary: st rule: chain_ok.induct)
  case (1 v)
  then show ?case by simp
next
  case (2 v p)
  from "2.prems"(1) obtain pv where pv: "page_view v p = Some pv" and last: "\<not> truthy (pv_has_next pv)"
    and fits: "count_fits v p"
    by (auto split: option.splits)
  from count_fits_estimate [OF fits] obtain t where t: "estimate v p = Inr t" by blast
  from "2.prems"(5) have env: "env (length (sent st)) = Body p" by simp
  let ?st1 = "st\<lparr>headers := sign_headers X v csrf st,
                    sent := sent st @ [mk_request X v csrf st],
                    total_pages := Some t, finished := True\<rparr>"
  have step: "py_next X v env (Suc f) st = (Some (Inr (pv_generic pv)), ?st1)"
    using last
    by (simp add: next_on_page [where env = env and st = st, OF "2.prems"(2,3,4) env pv t] Let_def)
  have stop: "py_next X v env (Suc f) ?st1 = (Some (Inl StopIteration), ?st1)"
    by (simp add: py_next_def)
  have "drain X v env (Suc f) (Suc (length [p])) st =
          (map (\<lambda>p. pv_generic (the (page_view v p))) [p], Some StopIteration, ?st1)"
    using pv by (simp add: step stop)
  moreover have "map req_cursor (sent ?st1) =
         map req_cursor (sent st) @ cursor st # map (\<lambda>p. pv_end_cursor (the (page_view v p))) (butlast [p])"
    by (simp add: mk_request_def)
  ultimately show ?case by blast
next
  case (3 v p q qs)
  from "3.prems"(1) obtain pv where pv: "page_view v p = Some pv"
    and more: "truthy (pv_has_next pv)" "truthy (pv_edges pv)" and rest: "chain_ok v (q # qs)"
    and fits: "count_fits v p"
    by (auto split: option.splits)
  from count_fits_estimate [OF fits] obtain t where t: "estimate v p = Inr t" by blast
  from "3.prems"(5) have env: "env (length (sent st)) = Body p" by fastforce
  let ?st1 = "st\<lparr>headers := sign_headers X v csrf st,
                    sent := sent st @ [mk_request X v csrf st],
                    total_pages := Some t,
                    cursor := pv_end_cursor pv, current_page := current_page st + 1\<rparr>"
  have step: "py_next X v env (Suc f) st = (Some (Inr (pv_generic pv)), ?st1)"
    using more
    by (simp add: next_on_page [where env = env and st = st, OF "3.prems"(2,3,4) env pv t] Let_def)
  have env1: "\<forall>i<length (q # qs). env (length (sent ?st1) + i) = Body ((q # qs) ! i)"
  proof (intro allI impI)
    fix i assume "i < length (q # qs)"
    then have "Suc i < length (p # q # qs)" by simp
    with "3.prems"(5) have "env (length (sent st) + Suc i) = Body ((p # q # qs) ! Suc i)" by blast
    then show "env (length (sent ?st1) + i) = Body ((q # qs) ! i)" by simp
  qed
  have csrf1: "headers ?st1 ''X-CSRFToken'' = Some csrf"
    using "3.prems"(4) by (simp add: sign_headers_def)
  have fin1: "\<not> finished ?st1" and open1: "\<not> gen_closed ?st1"
    using "3.prems"(2,3) by simp_all
  from "3.IH" [OF pv rest fin1 open1 csrf1 env1]
  obtain st' where
    d: "drain X v env (Suc f) (Suc (length (q # qs))) ?st1 =
          (map (\<lambda>p. pv_generic (the (page_view v p))) (q # qs), Some StopIteration, st')"
    and c: "map req_cursor (sent st') =
         map req_cursor (sent ?st1) @ cursor ?st1 # map (\<lambda>p. pv_end_cursor (the (page_view v p))) (butlast (q # qs))"
    by auto
  have "drain X v env (Suc f) (Suc (length (p # q # qs))) st =
          (map (\<lambda>p. pv_generic (the (page_view v p))) (p # q # qs), Some StopIteration, st')"
    using d pv step by simp
  moreover have "map req_cursor (sent st') =
         map req_cursor (sent st) @ cursor st # map (\<lambda>p. pv_end_cursor (the (page_view v p))) (butlast (p # q # qs))"
    using c pv by (simp add: mk_request_def)
  ultimately show ?case by blast
qed

text \<open>
  C1, as stated, fails: a well-formed page may carry any integer as its count, and on a
  count beyond the range of doubles the division in the loader raises OverflowError,
  which no \<^verbatim>\<open>except\<close> clause names. The sequence of the one page below, with
  \<^verbatim>\<open>has_next_page\<close> false, yields nothing: the first \<^verbatim>\<open>__next__\<close> raises
  OverflowError.
\<close>

theorem pages_yielded_in_order_counterexample:
  "page_view (Hashtag ''cats'') (demo_page huge_count False [JNull] ''c1'') \<noteq> None
   \<and> truthy (pv_has_next (the (page_view (Hashtag ''cats'')
        (demo_page huge_count False [JNull] ''c1'')))) = False
   \<and> fst (drain demo_ext (Hashtag ''cats'') (demo_env [demo_page huge_count False [JNull] ''c1''])
        (Suc 0) (Suc (Suc 0)) (init_iter demo_headers (JStr ''rhx''))) = []
   \<and> fst (snd (drain demo_ext (Hashtag ''cats'') (demo_env [demo_page huge_count False [JNull] ''c1''])
        (Suc 0) (Suc (Suc 0)) (init_iter demo_headers (JStr ''rhx'')))) = Some OverflowError"
  by (simp add: demo_defs pages_of_count_huge demo_env_def page_view_def Let_def)

text \<open>
  C1, amended. Let the server answer the first N requests of a new iterator with N
  well-formed pages whose counts do not overflow the division of the loader, of which
  every page but the last has \<^verbatim>\<open>has_next_page\<close> true and edges, and the last has
  \<^verbatim>\<open>has_next_page\<close> false. Then N + 1 calls of \<^verbatim>\<open>__next__\<close> return the
  generic-section objects of the N pages, in order, and end with StopIteration; exactly
  N requests are sent, the first with no cursor and each later one with the
  \<^verbatim>\<open>end_cursor\<close> of the page before it.
\<close>

theorem pages_yielded_in_order:
  assumes "chain_ok v ps" and "hs ''X-CSRFToken'' = Some csrf"
    and "\<forall>i<length ps. env i = Body (ps ! i)"
  shows "fst (drain X v env (Suc f) (Suc (length ps)) (init_iter hs r)) =
           map (\<lambda>p. pv_generic (the (page_view v p))) ps
       \<and> fst (snd (drain X v env (Suc f) (Suc (length ps)) (init_iter hs r))) = Some StopIteration
       \<and> map req_cursor (sent (snd (snd (drain X v env (Suc f) (Suc (length ps)) (init_iter hs r))))) =
           JNull # map (\<lambda>p. pv_end_cursor (the (page_view v p))) (butlast ps)"
proof -
  let ?st = "init_iter hs r"
  have a: "\<not> finished ?st" and b: "\<not> gen_closed ?st" and c: "headers ?st ''X-CSRFToken'' = Some csrf"
    using assms(2) by (simp_all add: init_iter_def)
  have d: "\<forall>i<length ps. env (length (sent ?st) + i) = Body (ps ! i)"
    using assms(3) by (simp add: init_iter_def)
  from drain_chain [where env = env and st = ?st, OF assms(1) a b c d, of X f]
  show ?thesis by (auto simp: init_iter_def)
qed

theorem pages_yielded_in_order_witness:
  "chain_ok (Hashtag ''cats'') [demo_page 400 True [JNull] ''c1'', demo_page 400 False [JNull] ''c2'']
   \<and> length (fst (drain demo_ext (Hashtag ''cats'')
         (demo_env [demo_page 400 True [JNull] ''c1'', demo_page 400 False [JNull] ''c2''])
         1 3 (init_iter demo_headers (JStr ''rhx'')))) = 2
   \<and> map req_cursor (sent (snd (snd (drain demo_ext (Hashtag ''cats'')
         (demo_env [demo_page 400 True [JNull] ''c1'', demo_page 400 False [JNull] ''c2''])
         1 3 (init_iter demo_headers (JStr ''rhx'')))))) = [JNull, JStr ''c1'']"
proof -
  let ?ps = "[demo_page 400 True [JNull] ''c1'', demo_page 400 False [JNull] ''c2'']"
  have a: "chain_ok (Hashtag ''cats'') ?ps"
    by (simp add: page_view_def demo_page_def count_fits_def estimate_def pages_of_count_small)
  have b: "demo_headers ''X-CSRFToken'' = Some ''tok''"
    by (simp add: demo_headers_def)
  have c: "\<forall>i<length ?ps. demo_env ?ps i = Body (?ps ! i)"
    by (simp add: demo_env_def)
  have n: "(3::nat) = Suc (length ?ps)" and o: "(1::nat) = Suc 0"
    by simp_all
  from pages_yielded_in_order [where env = "demo_env ?ps" and hs = demo_headers and ps = ?ps
      and X = demo_ext and f = 0 and r = "JStr ''rhx''", OF a b c] a
  show ?thesis
    unfolding n o by (simp add: page_view_def demo_page_def)
qed

section \<open>Pages without edges\<close>

text \<open>
  C2, as stated, fails: a page with no edges whose \<^verbatim>\<open>has_next_page\<close> is false is
  returned by the call that pulls it. The test of \<^verbatim>\<open>has_next_page\<close> comes first in
  \<^verbatim>\<open>__next__\<close>, and the test of \<^verbatim>\<open>edges\<close> is its \<^verbatim>\<open>elif\<close>. And a page with no
  edges whose count is beyond the range of doubles never reaches these tests: the call
  raises OverflowError and \<^verbatim>\<open>_finished\<close> stays false.
\<close>

theorem empty_edges_last_page_counterexample:
  "path (demo_page 0 False [] ''c1'') [''data'', ''hashtag'', ''edge_hashtag_to_media'', ''edges'']
     = Inr (JList [])
   \<and> fst (py_next demo_ext (Hashtag ''cats'') (demo_env [demo_page 0 False [] ''c1'']) 1
          (init_iter demo_headers (JStr ''rhx'')))
     = Some (path (demo_page 0 False [] ''c1'') [''data'', ''hashtag''])
   \<and> path (demo_page 0 False [] ''c1'') [''data'', ''hashtag''] =
       Inr (JObj [(''edge_hashtag_to_media'',
         JObj [(''count'', JInt 0),
               (''page_info'', JObj [(''has_next_page'', JBool False), (''end_cursor'', JStr ''c1'')]),
               (''edges'', JList [])])])
   \<and> fst (py_next demo_ext (Hashtag ''cats'') (demo_env [demo_page huge_count True [] ''c1'']) 1
          (init_iter demo_headers (JStr ''rhx''))) = Some (Inl OverflowError)
   \<and> finished (snd (py_next demo_ext (Hashtag ''cats'') (demo_env [demo_page huge_count True [] ''c1'']) 1
          (init_iter demo_headers (JStr ''rhx'')))) = False"
  by (simp add: demo_defs demo_env_def pages_of_count_huge)

text \<open>
  C2, amended. Let a call of \<^verbatim>\<open>__next__\<close> pull a page whose \<^verbatim>\<open>edges\<close> are empty
  and whose count does not overflow the division of the loader. If \<^verbatim>\<open>has_next_page\<close> is true, the call sets \<^verbatim>\<open>_finished\<close> and raises
  StopIteration: the page is not returned. If \<^verbatim>\<open>has_next_page\<close> is false, the call
  sets \<^verbatim>\<open>_finished\<close> and returns the generic-section object of the page.
\<close>

theorem empty_edges_stop:
  assumes "\<not> finished st" and "\<not> gen_closed st" and "headers st ''X-CSRFToken'' = Some csrf"
    and "env (length (sent st)) = Body body"
    and "path body [''data'', section_generic v, section_media v, ''page_info'', ''has_next_page''] = Inr h"
    and "path body [''data'', section_generic v, section_media v, ''edges''] = Inr es"
    and "\<not> truthy es"
    and "count_fits v body"
  shows "(truthy h \<longrightarrow>
            fst (py_next X v env (Suc f) st) = Some (Inl StopIteration)
          \<and> finished (snd (py_next X v env (Suc f) st)))
       \<and> (\<not> truthy h \<longrightarrow>
            fst (py_next X v env (Suc f) st) = Some (path body [''data'', section_generic v])
          \<and> (\<exists>g. path body [''data'', section_generic v] = Inr g)
          \<and> finished (snd (py_next X v env (Suc f) st)))"
proof -
  from assms(5,6) obtain d g mi pi where
    d: "getitem body ''data'' = Inr d"
    and g: "getitem d (section_generic v) = Inr g"
    and m: "getitem g (section_media v) = Inr mi"
    and p: "getitem mi ''page_info'' = Inr pi"
    and h: "getitem pi ''has_next_page'' = Inr h"
    and e: "getitem mi ''edges'' = Inr es"
    by (auto split: sum.splits)
  from count_fits_estimate [OF assms(8)] obtain t where t: "estimate v body = Inr t" by blast
  show ?thesis
    using assms(1,7) g m p h e d
    by (simp add: py_next_def gen_next_on_body [where env = env and st = st, OF assms(2,3,4) t d])
qed

theorem empty_edges_stop_witness:
  "truthy (JBool True) \<and> \<not> truthy (JList [])
   \<and> fst (py_next demo_ext (Hashtag ''cats'') (demo_env [demo_page 0 True [] ''c1'']) 1
          (init_iter demo_headers (JStr ''rhx''))) = Some (Inl StopIteration)
   \<and> finished (snd (py_next demo_ext (Hashtag ''cats'') (demo_env [demo_page 0 True [] ''c1'']) 1
          (init_iter demo_headers (JStr ''rhx''))))"
proof -
  let ?st = "init_iter demo_headers (JStr ''rhx'')"
  let ?b = "demo_page 0 True [] ''c1''"
  have a: "\<not> finished ?st" and b: "\<not> gen_closed ?st" and c: "headers ?st ''X-CSRFToken'' = Some ''tok''"
    by (simp_all add: init_iter_def demo_headers_def)
  have d: "demo_env [?b] (length (sent ?st)) = Body ?b"
    by (simp add: demo_env_def init_iter_def)
  have e: "path ?b [''data'', section_generic (Hashtag ''cats''), section_media (Hashtag ''cats''),
                    ''page_info'', ''has_next_page''] = Inr (JBool True)"
    by (simp add: demo_page_def)
  have f: "path ?b [''data'', section_generic (Hashtag ''cats''), section_media (Hashtag ''cats''),
                    ''edges''] = Inr (JList [])"
    by (simp add: demo_page_def)
  have g: "\<not> truthy (JList [])" by simp
  have k: "count_fits (Hashtag ''cats'') ?b"
    by (simp add: count_fits_def estimate_def demo_page_def pages_of_count_small)
  have o: "(1::nat) = Suc 0" by simp
  from empty_edges_stop [where env = "demo_env [?b]" and st = ?st and X = demo_ext and f = 0,
      OF a b c d e f g k]
  show ?thesis unfolding o by simp
qed

section \<open>Retrying after a missing key\<close>

lemma mk_request_resigned [simp]:
  "mk_request X v csrf (st\<lparr>headers := sign_headers X v csrf st, sent := s, slept := t\<rparr>)
     = mk_request X v csrf st"
  "mk_request X v csrf (st\<lparr>headers := sign_headers X v csrf st, sent := s, total_pages := u, slept := t\<rparr>)
     = mk_request X v csrf st"
  by (simp_all add: mk_request_def sign_headers_def)

lemma loader_keeps_retrying:
  "headers st ''X-CSRFToken'' = Some csrf \<Longrightarrow>
   (\<forall>i<k. missing_key (env (length (sent st) + i))) \<Longrightarrow>
   fst (page_loader X v env k st) = None
   \<and> sent (snd (page_loader X v env k st)) = sent st @ replicate k (mk_request X v csrf st)
   \<and> slept (snd (page_loader X v env k st)) = slept st + 10 * k
   \<and> mk_request X v csrf (snd (page_loader X v env k st)) = mk_request X v csrf st"
proof (induction k arbitrary: st)
  case 0
  show ?case by simp
next
  case (Suc k)
  from Suc.prems(2) have first: "missing_key (env (length (sent st)))" by fastforce
  have rest: "\<forall>i<k. missing_key (env (Suc (length (sent st)) + i))"
    using Suc.prems(2) by fastforce
  show ?case
  proof (cases "env (length (sent st))")
    case (Fails e)
    with first have e: "e = KeyError" by simp
    let ?st1 = "st\<lparr>headers := sign_headers X v csrf st,
                    sent := sent st @ [mk_request X v csrf st], slept := slept st + 10\<rparr>"
    have h: "headers ?st1 ''X-CSRFToken'' = Some csrf"
      using Suc.prems(1) by (simp add: sign_headers_def)
    have r: "\<forall>i<k. missing_key (env (length (sent ?st1) + i))" using rest by simp
    have pl: "page_loader X v env (Suc k) st = page_loader X v env k ?st1"
      using Suc.prems(1) Fails e by (simp add: Let_def)
    show ?thesis unfolding pl using Suc.IH [OF h r]
      by (simp add: replicate_app_Cons_same)
  next
    case (Body b)
    with first have e: "getitem b ''data'' = Inl KeyError" by simp
    note z = estimate_no_data [OF e, of v]
    let ?st1 = "st\<lparr>headers := sign_headers X v csrf st,
                    sent := sent st @ [mk_request X v csrf st],
                    total_pages := Some 0, slept := slept st + 10\<rparr>"
    have h: "headers ?st1 ''X-CSRFToken'' = Some csrf"
      using Suc.prems(1) by (simp add: sign_headers_def)
    have r: "\<forall>i<k. missing_key (env (length (sent ?st1) + i))" using rest by simp
    have pl: "page_loader X v env (Suc k) st = page_loader X v env k ?st1"
      using Suc.prems(1) Body e z by (simp add: Let_def)
    show ?thesis unfolding pl using Suc.IH [OF h r]
      by (simp add: replicate_app_Cons_same)
  qed
qed


lemma loader_fuel_split:
  "fst (page_loader X v env k st) = None \<Longrightarrow>
     page_loader X v env (k + m) st = page_loader X v env m (snd (page_loader X v env k st))"
  by (induction k arbitrary: st)
     (auto simp: Let_def split: option.splits response.splits sum.splits)

lemma loader_after_retries:
  assumes "headers st ''X-CSRFToken'' = Some csrf"
    and "\<forall>i<k. missing_key (env (length (sent st) + i))"
    and "env (length (sent st) + k) = Body body"
    and "estimate v body = Inr t"
    and "getitem body ''data'' = Inr d"
  shows "fst (page_loader X v env (Suc (k + f)) st) = Some (Inr d)
       \<and> sent (snd (page_loader X v env (Suc (k + f)) st)) =
           sent st @ replicate (Suc k) (mk_request X v csrf st)
       \<and> slept (snd (page_loader X v env (Suc (k + f)) st)) = slept st + 10 * k
       \<and> total_pages (snd (page_loader X v env (Suc (k + f)) st)) = Some t"
proof -
  let ?sk = "snd (page_loader X v env k st)"
  note r = loader_keeps_retrying [where env = env and st = st, OF assms(1,2), of X v]
  have split: "page_loader X v env (Suc (k + f)) st = page_loader X v env (Suc f) ?sk"
    using loader_fuel_split [of X v env k st "Suc f"] r by simp
  have h: "headers ?sk ''X-CSRFToken'' = Some csrf"
    using loader_frame [of X v env k st] assms(1) by simp
  have e: "env (length (sent ?sk)) = Body body"
    using r assms(3) by simp
  show ?thesis
    unfolding split loader_on_body [where env = env and st = ?sk, OF h e assms(4,5)]
    using r by (simp add: replicate_append_same)
qed


lemma next_of_loaded:
  assumes "\<not> finished st" and "\<not> gen_closed st"
    and "page_loader X v env n st = (Some (Inr d), st2)"
    and "getitem body ''data'' = Inr d"
    and "page_view v body = Some pv"
  shows "py_next X v env n st =
     (if \<not> truthy (pv_has_next pv) then (Some (Inr (pv_generic pv)), st2\<lparr>finished := True\<rparr>)
      else if \<not> truthy (pv_edges pv) then (Some (Inl StopIteration), st2\<lparr>finished := True\<rparr>)
      else (Some (Inr (pv_generic pv)),
            st2\<lparr>cursor := pv_end_cursor pv, current_page := current_page st2 + 1\<rparr>))"
proof -
  from page_view_data [OF assms(5)] assms(4) obtain mi pi where
    g: "getitem d (section_generic v) = Inr (pv_generic pv)"
    and m: "getitem (pv_generic pv) (section_media v) = Inr mi"
    and p: "getitem mi ''page_info'' = Inr pi"
    and h: "getitem pi ''has_next_page'' = Inr (pv_has_next pv)"
    and e: "getitem mi ''edges'' = Inr (pv_edges pv)"
    and c: "getitem pi ''end_cursor'' = Inr (pv_end_cursor pv)"
    by auto
  have "gen_next X v env n st = (Some (Inr d), st2)"
    using assms(2,3) by (simp add: gen_next_def)
  then show ?thesis
    using assms(1) g m p h e c by (simp add: py_next_def)
qed

text \<open>
  C5, as stated, fails: after a response without \<^verbatim>\<open>data\<close>, a well-formed page whose
  count is beyond the range of doubles does not reach the caller. The loader retries
  once, then raises OverflowError out of \<^verbatim>\<open>__next__\<close>.
\<close>

theorem malformed_responses_retried_counterexample:
  "missing_key (demo_env [JObj [(''status'', JStr ''fail'')],
                          demo_page huge_count True [JNull] ''c1''] 0)
   \<and> page_view (Hashtag ''cats'') (demo_page huge_count True [JNull] ''c1'') \<noteq> None
   \<and> fst (py_next demo_ext (Hashtag ''cats'')
        (demo_env [JObj [(''status'', JStr ''fail'')], demo_page huge_count True [JNull] ''c1''])
        (Suc (Suc 0)) (init_iter demo_headers (JStr ''rhx''))) = Some (Inl OverflowError)
   \<and> slept (snd (py_next demo_ext (Hashtag ''cats'')
        (demo_env [JObj [(''status'', JStr ''fail'')], demo_page huge_count True [JNull] ''c1''])
        (Suc (Suc 0)) (init_iter demo_headers (JStr ''rhx'')))) = 10"
  by (simp add: demo_defs pages_of_count_huge demo_env_def page_view_def Let_def)

text \<open>
  C5, amended. Let the next k responses each raise a missing key in the loader. Then
  after k passes the loader has not returned: it has sent k times the same request, with
  the same cursor, URL and headers, and has slept 10 after each. No number of such
  responses makes it return or raise. When the response after them is a well-formed
  page that \<^verbatim>\<open>__next__\<close> returns and whose count does not overflow the division of the
  loader, a call of \<^verbatim>\<open>__next__\<close> allowed more than k passes returns the
  generic-section object of that page, raising nothing, after k more sleeps of 10.
\<close>

theorem malformed_responses_retried:
  assumes "headers st ''X-CSRFToken'' = Some csrf"
    and "\<forall>i<k. missing_key (env (length (sent st) + i))"
  shows "fst (page_loader X v env k st) = None
       \<and> sent (snd (page_loader X v env k st)) = sent st @ replicate k (mk_request X v csrf st)
       \<and> slept (snd (page_loader X v env k st)) = slept st + 10 * k
       \<and> (\<forall>body pv f.
            env (length (sent st) + k) = Body body \<longrightarrow> page_view v body = Some pv \<longrightarrow>
            count_fits v body \<longrightarrow> \<not> finished st \<longrightarrow> \<not> gen_closed st \<longrightarrow>
            (truthy (pv_has_next pv) \<longrightarrow> truthy (pv_edges pv)) \<longrightarrow>
              fst (py_next X v env (Suc (k + f)) st) = Some (Inr (pv_generic pv))
            \<and> sent (snd (py_next X v env (Suc (k + f)) st)) =
                sent st @ replicate (Suc k) (mk_request X v csrf st)
            \<and> slept (snd (py_next X v env (Suc (k + f)) st)) = slept st + 10 * k)"
proof -
  note r = loader_keeps_retrying [where env = env and st = st, OF assms, of X v]
  have "fst (py_next X v env (Suc (k + f)) st) = Some (Inr (pv_generic pv))
      \<and> sent (snd (py_next X v env (Suc (k + f)) st)) =
          sent st @ replicate (Suc k) (mk_request X v csrf st)
      \<and> slept (snd (py_next X v env (Suc (k + f)) st)) = slept st + 10 * k"
    if b: "env (length (sent st) + k) = Body body" and pv: "page_view v body = Some pv"
      and fits: "count_fits v body"
      and nf: "\<not> finished st" and op: "\<not> gen_closed st"
      and ok: "truthy (pv_has_next pv) \<longrightarrow> truthy (pv_edges pv)"
    for body pv f
  proof -
    from page_view_data [OF pv] obtain d where d: "getitem body ''data'' = Inr d" by blast
    from count_fits_estimate [OF fits] obtain t where t: "estimate v body = Inr t" by blast
    let ?l = "page_loader X v env (Suc (k + f)) st"
    note a = loader_after_retries [where env = env and st = st, OF assms b t d, of X f]
    have l: "?l = (Some (Inr d), snd ?l)"
      using a by (simp add: prod_eq_iff)
    show ?thesis
      unfolding next_of_loaded [where env = env and st = st, OF nf op l d pv]
      using a ok by simp
  qed
  with r show ?thesis by blast
qed

theorem malformed_responses_retried_witness:
  "missing_key (demo_env [JObj [(''status'', JStr ''fail'')], JObj [(''status'', JStr ''fail'')],
                          demo_page 400 True [JNull] ''c1''] 0)
   \<and> missing_key (demo_env [JObj [(''status'', JStr ''fail'')], JObj [(''status'', JStr ''fail'')],
                          demo_page 400 True [JNull] ''c1''] 1)
   \<and> fst (page_loader demo_ext (Hashtag ''cats'')
        (demo_env [JObj [(''status'', JStr ''fail'')], JObj [(''status'', JStr ''fail'')],
                   demo_page 400 True [JNull] ''c1'']) 2 (init_iter demo_headers (JStr ''rhx''))) = None
   \<and> map req_cursor (sent (snd (page_loader demo_ext (Hashtag ''cats'')
        (demo_env [JObj [(''status'', JStr ''fail'')], JObj [(''status'', JStr ''fail'')],
                   demo_page 400 True [JNull] ''c1'']) 2 (init_iter demo_headers (JStr ''rhx''))))) = [JNull, JNull]
   \<and> fst (py_next demo_ext (Hashtag ''cats'')
        (demo_env [JObj [(''status'', JStr ''fail'')], JObj [(''status'', JStr ''fail'')],
                   demo_page 400 True [JNull] ''c1'']) 3 (init_iter demo_headers (JStr ''rhx'')))
       = Some (Inr (pv_generic (the (page_view (Hashtag ''cats'') (demo_page 400 True [JNull] ''c1'')))))
   \<and> slept (snd (py_next demo_ext (Hashtag ''cats'')
        (demo_env [JObj [(''status'', JStr ''fail'')], JObj [(''status'', JStr ''fail'')],
                   demo_page 400 True [JNull] ''c1'']) 3 (init_iter demo_headers (JStr ''rhx'')))) = 20"
proof -
  let ?bad = "JObj [(''status'', JStr ''fail'')]"
  let ?good = "demo_page 400 True [JNull] ''c1''"
  let ?env = "demo_env [?bad, ?bad, ?good]"
  let ?st = "init_iter demo_headers (JStr ''rhx'')"
  let ?v = "Hashtag ''cats''"
  have a: "headers ?st ''X-CSRFToken'' = Some ''tok''"
    by (simp add: init_iter_def demo_headers_def)
  have b0: "\<forall>i<2. missing_key (?env i)"
    by (simp add: demo_env_def less_Suc_eq numeral_2_eq_2)
  have b: "\<forall>i<2. missing_key (?env (length (sent ?st) + i))"
    using b0 by (simp add: init_iter_def)
  obtain pv where pv: "page_view ?v ?good = Some pv"
    by (simp add: page_view_def demo_page_def)
  have c: "?env (length (sent ?st) + 2) = Body ?good"
    by (simp add: demo_env_def init_iter_def)
  have d: "\<not> finished ?st" "\<not> gen_closed ?st" by (simp_all add: init_iter_def)
  have e: "truthy (pv_has_next pv) \<longrightarrow> truthy (pv_edges pv)"
    using pv by (auto simp: page_view_def demo_page_def)
  have fits: "count_fits ?v ?good"
    by (simp add: count_fits_def estimate_def demo_page_def pages_of_count_small)
  note t = malformed_responses_retried [where env = ?env and st = ?st and k = 2 and X = demo_ext
      and v = ?v, OF a b]
  from t have t1: "fst (page_loader demo_ext ?v ?env 2 ?st) = None"
    and t2: "sent (snd (page_loader demo_ext ?v ?env 2 ?st)) =
               sent ?st @ replicate 2 (mk_request demo_ext ?v ''tok'' ?st)"
    by blast+
  from t c pv d e fits have t3:
    "fst (py_next demo_ext ?v ?env (Suc (2 + 0)) ?st) = Some (Inr (pv_generic pv))
     \<and> slept (snd (py_next demo_ext ?v ?env (Suc (2 + 0)) ?st)) = slept ?st + 10 * 2"
    by blast
  have n: "(3::nat) = Suc (2 + 0)" by simp
  have "map req_cursor (sent (snd (page_loader demo_ext ?v ?env 2 ?st))) = [JNull, JNull]"
    unfolding t2 by (simp add: init_iter_def mk_request_def numeral_2_eq_2)
  moreover have "slept ?st + 10 * 2 = 20" by (simp add: init_iter_def)
  moreover have "missing_key (?env 0)" and "missing_key (?env 1)"
    by (simp_all add: demo_env_def)
  ultimately show ?thesis
    using t1 t3 pv unfolding n by simp
qed

section \<open>The signature header\<close>

lemma mk_request_signed:
  "headers st ''X-CSRFToken'' = Some csrf \<Longrightarrow> signed X v (rhx st) (mk_request X v csrf st)"
  by (simp add: signed_def mk_request_def sign_headers_def)

lemma loader_new_signed:
  "sent (snd (page_loader X v env n st)) = sent st @ new \<Longrightarrow> \<forall>q\<in>set new. signed X v (rhx st) q"
proof (induction n arbitrary: st new)
  case 0
  then show ?case by simp
next
  case (Suc n)
  show ?case
  proof (cases "headers st ''X-CSRFToken''")
    case None
    with Suc.prems have "sent (snd (page_loader X v env n (st\<lparr>slept := slept st + 10\<rparr>))) =
        sent (st\<lparr>slept := slept st + 10\<rparr>) @ new"
      by simp
    from Suc.IH [OF this] show ?thesis by simp
  next
    case (Some csrf)
    let ?q = "mk_request X v csrf st"
    have q: "signed X v (rhx st) ?q" using Some by (rule mk_request_signed)
    have step: "\<forall>q\<in>set new. signed X v (rhx st) q"
      if "sent (snd (page_loader X v env n st2)) = sent st @ new"
        and "sent st2 = sent st @ [?q]" and "rhx st2 = rhx st" for st2
    proof -
      from loader_sent_prefix [of X v env n st2] that(2)
      obtain new' where n': "sent (snd (page_loader X v env n st2)) = sent st2 @ new'" by blast
      with that(1,2) have "new = ?q # new'" by simp
      moreover from Suc.IH [OF n'] that(3) have "\<forall>q\<in>set new'. signed X v (rhx st) q" by simp
      ultimately show ?thesis using q by simp
    qed
    from Suc.prems Some q show ?thesis
      by (auto simp: Let_def split: response.splits sum.splits if_splits dest!: step)
  qed
qed

text \<open>
  C7. Every request that the page loader sends, in any number of passes from any state,
  is sent with the header \<^verbatim>\<open>x-instagram-gis\<close> of the session set to the MD5 digest of
  \<^verbatim>\<open>rhx:csrf:params\<close>, where \<^verbatim>\<open>csrf\<close> is the session's \<^verbatim>\<open>X-CSRFToken\<close> and
  \<^verbatim>\<open>params\<close> is the compact serialization of the parameters built from the cursor, the
  one that the URL of the request holds. The digest and the serialization are the
  library's.
\<close>

theorem loader_requests_signed:
  "\<forall>q\<in>set (drop (length (sent st)) (sent (snd (page_loader X v env n st)))). signed X v (rhx st) q"
proof -
  from loader_sent_prefix [of X v env n st]
  obtain new where n: "sent (snd (page_loader X v env n st)) = sent st @ new" by blast
  from loader_new_signed [OF n] show ?thesis by (simp add: n)
qed

theorem loader_requests_signed_witness:
  "map (\<lambda>q. req_headers q ''x-instagram-gis'')
     (sent (snd (page_loader demo_ext (Hashtag ''cats'') (demo_env [demo_page 400 True [JNull] ''c1''])
        1 (init_iter demo_headers (JStr ''rhx''))))) = [Some ''md5(rhx:tok:{})'']
   \<and> list_all (signed demo_ext (Hashtag ''cats'') (JStr ''rhx''))
        (sent (snd (page_loader demo_ext (Hashtag ''cats'') (demo_env [demo_page 400 True [JNull] ''c1''])
           1 (init_iter demo_headers (JStr ''rhx'')))))"
proof -
  let ?st = "init_iter demo_headers (JStr ''rhx'')"
  let ?env = "demo_env [demo_page 400 True [JNull] ''c1'']"
  have a: "length (sent ?st) = 0" and b: "rhx ?st = JStr ''rhx''" by (simp_all add: init_iter_def)
  from loader_requests_signed [of ?st demo_ext "Hashtag ''cats''" ?env 1]
  have "list_all (signed demo_ext (Hashtag ''cats'') (JStr ''rhx''))
          (sent (snd (page_loader demo_ext (Hashtag ''cats'') ?env 1 ?st)))"
    unfolding a b list_all_iff by simp
  moreover have "map (\<lambda>q. req_headers q ''x-instagram-gis'')
     (sent (snd (page_loader demo_ext (Hashtag ''cats'') ?env 1 ?st))) = [Some ''md5(rhx:tok:{})'']"
    by (simp add: demo_defs demo_env_def Let_def)
  ultimately show ?thesis by blast
qed

section \<open>The estimate of the number of pages\<close>

text \<open>
  C4, as stated, fails. Three pages are fetched, with counts 200, 600 and none: the
  estimate is 1 after the first, 3 after the second and 0 after the third. It is
  computed again at every fetch, and a missing count sets it to 0 instead of leaving it.
  All three pages are returned. And the quotient is a double: for the count
  20000000000000001 the estimate is 100000000000000, one less than the ceiling of
  count / 200, and for a count beyond the range of doubles the fetch fails with
  OverflowError.
\<close>

theorem estimate_recomputed_counterexample:
  "map (\<lambda>n. total_pages (snd (snd (drain demo_ext (Hashtag ''cats'')
          (demo_env [demo_page 200 True [JNull] ''c1'', demo_page 600 True [JNull] ''c2'',
                     demo_page_no_count])
          (Suc 0) n (init_iter demo_headers (JStr ''rhx''))))))
       [Suc 0, Suc (Suc 0), Suc (Suc (Suc 0))]
     = [Some 1, Some 3, Some 0]
   \<and> fst (drain demo_ext (Hashtag ''cats'')
          (demo_env [demo_page 200 True [JNull] ''c1'', demo_page 600 True [JNull] ''c2'',
                     demo_page_no_count])
          (Suc 0) (Suc (Suc (Suc 0))) (init_iter demo_headers (JStr ''rhx'')))
     = [pv_generic (the (page_view (Hashtag ''cats'') (demo_page 200 True [JNull] ''c1''))),
        pv_generic (the (page_view (Hashtag ''cats'') (demo_page 600 True [JNull] ''c2''))),
        pv_generic (the (page_view (Hashtag ''cats'') demo_page_no_count))]
   \<and> total_pages (snd (page_loader demo_ext (Hashtag ''cats'')
          (demo_env [demo_page 20000000000000001 True [JNull] ''c1''])
          (Suc 0) (init_iter demo_headers (JStr ''rhx'')))) = Some 100000000000000
   \<and> \<lceil>real_of_int 20000000000000001 / real_of_int PAGE_SIZE\<rceil> = 100000000000001
   \<and> fst (page_loader demo_ext (Hashtag ''cats'')
          (demo_env [demo_page huge_count True [JNull] ''c1''])
          (Suc 0) (init_iter demo_headers (JStr ''rhx''))) = Some (Inl OverflowError)"
  by (simp add: demo_defs demo_env_def demo_page_no_count_def page_view_def Let_def
        pages_of_count_rounded pages_of_count_huge ceiling_eq_iff)

text \<open>
  C4, amended. Every fetch that decodes a body with a \<^verbatim>\<open>data\<close> entry and an integer
  count c with \<open>0 \<le> c < 200 * 2 ^ 46\<close>, or with no count, yields the body and sets the
  estimate, whatever the estimate was before: to the ceiling of c / 200 in the first
  case and to 0 in the second. The fetch fails in neither case.
\<close>

theorem estimate_set_by_every_fetch:
  assumes "headers st ''X-CSRFToken'' = Some csrf"
    and "env (length (sent st)) = Body body"
    and "getitem body ''data'' = Inr d"
  shows "(\<forall>c. path body [''data'', section_generic v, section_media v, ''count''] = Inr (JInt c) \<longrightarrow>
             0 \<le> c \<longrightarrow> c < 200 * 2 ^ 46 \<longrightarrow>
               fst (page_loader X v env (Suc f) st) = Some (Inr d)
             \<and> total_pages (snd (page_loader X v env (Suc f) st)) =
                 Some \<lceil>real_of_int c / real_of_int PAGE_SIZE\<rceil>)
       \<and> (\<forall>e. path body [''data'', section_generic v, section_media v, ''count''] = Inl e \<longrightarrow>
               fst (page_loader X v env (Suc f) st) = Some (Inr d)
             \<and> total_pages (snd (page_loader X v env (Suc f) st)) = Some 0)"
proof -
  have "fst (page_loader X v env (Suc f) st) = Some (Inr d)
      \<and> total_pages (snd (page_loader X v env (Suc f) st)) =
          Some \<lceil>real_of_int c / real_of_int PAGE_SIZE\<rceil>"
    if c: "path body [''data'', section_generic v, section_media v, ''count''] = Inr (JInt c)"
      and r: "0 \<le> c" "c < 200 * 2 ^ 46" for c
  proof -
    have "estimate v body = Inr \<lceil>real_of_int c / real_of_int PAGE_SIZE\<rceil>"
      unfolding estimate_def c by (simp add: pages_of_count_ceiling [OF r])
    from loader_on_body [where env = env and st = st, OF assms(1,2) this assms(3), of X f]
    show ?thesis by simp
  qed
  moreover have "fst (page_loader X v env (Suc f) st) = Some (Inr d)
      \<and> total_pages (snd (page_loader X v env (Suc f) st)) = Some 0"
    if e: "path body [''data'', section_generic v, section_media v, ''count''] = Inl e" for e
  proof -
    have "estimate v body = Inr 0"
      unfolding estimate_def e by simp
    from loader_on_body [where env = env and st = st, OF assms(1,2) this assms(3), of X f]
    show ?thesis by simp
  qed
  ultimately show ?thesis by blast
qed

theorem estimate_set_by_every_fetch_witness:
  "path (demo_page 401 True [JNull] ''c1'') [''data'', ''hashtag'', ''edge_hashtag_to_media'', ''count'']
     = Inr (JInt 401)
   \<and> (0::int) \<le> 401 \<and> (401::int) < 200 * 2 ^ 46
   \<and> total_pages (snd (page_loader demo_ext (Hashtag ''cats'') (demo_env [demo_page 401 True [JNull] ''c1''])
        (Suc 0) ((init_iter demo_headers (JStr ''rhx''))\<lparr>total_pages := Some 7\<rparr>))) = Some 3"
proof -
  let ?st = "(init_iter demo_headers (JStr ''rhx''))\<lparr>total_pages := Some 7\<rparr>"
  let ?b = "demo_page 401 True [JNull] ''c1''"
  have a: "headers ?st ''X-CSRFToken'' = Some ''tok''"
    by (simp add: init_iter_def demo_headers_def)
  have b: "demo_env [?b] (length (sent ?st)) = Body ?b"
    by (simp add: init_iter_def demo_env_def)
  have c: "getitem ?b ''data'' = Inr (JObj [(''hashtag'', JObj [(''edge_hashtag_to_media'',
       JObj [(''count'', JInt 401),
             (''page_info'', JObj [(''has_next_page'', JBool True), (''end_cursor'', JStr ''c1'')]),
             (''edges'', JList [JNull])])])])"
    by (simp add: demo_page_def)
  have d: "path ?b [''data'', section_generic (Hashtag ''cats''), section_media (Hashtag ''cats''), ''count'']
     = Inr (JInt 401)"
    by (simp add: demo_page_def)
  have e: "\<lceil>real_of_int 401 / real_of_int PAGE_SIZE\<rceil> = 3"
    by (simp add: PAGE_SIZE_def ceiling_eq_iff)
  have r: "(0::int) \<le> 401" "(401::int) < 200 * 2 ^ 46" by simp_all
  from estimate_set_by_every_fetch [where env = "demo_env [?b]" and st = ?st and X = demo_ext
      and v = "Hashtag ''cats''" and f = 0, OF a b c] d r
  have "total_pages (snd (page_loader demo_ext (Hashtag ''cats'') (demo_env [?b]) (Suc 0) ?st)) =
      Some \<lceil>real_of_int 401 / real_of_int PAGE_SIZE\<rceil>"
    by blast
  with d e r show ?thesis by simp
qed

text \<open>
  C3 does not hold of the code. \<^verbatim>\<open>__length_hint__\<close> returns
  \<^verbatim>\<open>self._total - self._done\<close>, and nothing ever changes \<^verbatim>\<open>_done\<close>: after one page
  of a collection of 400 items has been returned, the hint is 2, not
  \<open>\<lceil>400 / 200\<rceil> - 1 = 1\<close>. And when the hint is asked first and the body fetched for it
  has no generic section, KeyError leaves \<^verbatim>\<open>__length_hint__\<close>, whose \<^verbatim>\<open>except\<close>
  names StopIteration and TypeError only.
\<close>

theorem length_hint_keeps_total:
  "fst (length_hint demo_ext (Hashtag ''cats'')
          (demo_env [demo_page 400 True [JNull] ''c1'', demo_page 400 False [JNull] ''c2''])
          (Suc 0)
          (snd (py_next demo_ext (Hashtag ''cats'')
                 (demo_env [demo_page 400 True [JNull] ''c1'', demo_page 400 False [JNull] ''c2''])
                 (Suc 0) (init_iter demo_headers (JStr ''rhx''))))) = Some (Inr 2)
   \<and> fst (py_next demo_ext (Hashtag ''cats'')
          (demo_env [demo_page 400 True [JNull] ''c1'', demo_page 400 False [JNull] ''c2''])
          (Suc 0) (init_iter demo_headers (JStr ''rhx'')))
       = Some (Inr (pv_generic (the (page_view (Hashtag ''cats'') (demo_page 400 True [JNull] ''c1'')))))
   \<and> \<lceil>real_of_int 400 / real_of_int PAGE_SIZE\<rceil> - 1 = 1
   \<and> fst (length_hint demo_ext (Hashtag ''cats'') (demo_env [JObj [(''data'', JObj [])]])
          (Suc 0) (init_iter demo_headers (JStr ''rhx''))) = Some (Inl KeyError)"
  by (simp add: demo_defs demo_env_def page_view_def Let_def)

section \<open>The page that the length hint fetches\<close>















section \<open>Properties of resolving a profile\<close>

text \<open>
  C8, as stated, fails: a private account that the viewer follows is resolved without
  any \<^verbatim>\<open>ds_user_id\<close> cookie. \<^verbatim>\<open>from_username\<close> looks at the cookie only when the
  account is private and \<^verbatim>\<open>followed_by_viewer\<close> is false.
\<close>

theorem private_followed_counterexample:
  "connected_id (sess_cookies (demo_session [])) = JNull
   \<and> map_sum id fst (from_username (\<lambda>url. Inr (demo_profile True True)) (demo_session []) ''alice'')
       = Inr (Profile (JStr ''42''))"
  by (simp add: from_username_def user_data_def and_then_def demo_profile_def demo_session_def
        connected_id_def)

text \<open>
  C8, amended. For a payload that holds the user's \<^verbatim>\<open>id\<close>, \<^verbatim>\<open>is_private\<close> and
  \<^verbatim>\<open>followed_by_viewer\<close> and the token \<^verbatim>\<open>rhx_gis\<close>, \<^verbatim>\<open>from_username\<close> builds the
  iterator for a public account and for a private account that the viewer follows,
  whatever the cookies are. For a private account that the viewer does not follow it
  builds the iterator only if the value of the first cookie named \<^verbatim>\<open>ds_user_id\<close>
  equals the owner id, and otherwise raises RuntimeError with a message that names the
  handle, which is not the ValueError of an account not found.
\<close>

theorem private_profile_access:
  assumes "user_data shared username = Inr ud"
    and "path ud [''entry_data'', ''ProfilePage''] = Inr pp"
    and "getfirst pp = Inr p0"
    and "path p0 [''graphql'', ''user''] = Inr data"
    and "getitem data ''is_private'' = Inr priv"
    and "getitem data ''followed_by_viewer'' = Inr fol"
    and "getitem data ''id'' = Inr i"
    and "getitem ud ''rhx_gis'' = Inr r"
  shows "from_username shared sess username =
           (if truthy priv \<and> \<not> truthy fol \<and> connected_id (sess_cookies sess) \<noteq> i
            then Inl (RuntimeError (private_msg username))
            else Inr (Profile i, init_iter (sess_headers sess) r))
       \<and> RuntimeError (private_msg username) \<noteq> ValueError (''account not found: '' @ username)"
  using assms unfolding from_username_def and_then_def by simp

theorem private_profile_access_witness:
  "truthy (JBool True) \<and> \<not> truthy (JBool False)
   \<and> connected_id [\<lparr>ck_name = ''ds_user_id'', ck_value = Some ''7''\<rparr>] \<noteq> JStr ''42''
   \<and> from_username (\<lambda>url. Inr (demo_profile True False))
         (demo_session [\<lparr>ck_name = ''ds_user_id'', ck_value = Some ''7''\<rparr>]) ''alice''
       = Inl (RuntimeError ''user 'alice' is private'')"
proof -
  let ?ud = "demo_profile True False"
  let ?user = "JObj [(''id'', JStr ''42''), (''is_private'', JBool True),
                     (''followed_by_viewer'', JBool False)]"
  let ?p0 = "JObj [(''graphql'', JObj [(''user'', ?user)])]"
  let ?sess = "demo_session [\<lparr>ck_name = ''ds_user_id'', ck_value = Some ''7''\<rparr>]"
  have a: "user_data (\<lambda>url. Inr ?ud) ''alice'' = Inr ?ud"
    by (simp add: user_data_def)
  have b: "path ?ud [''entry_data'', ''ProfilePage''] = Inr (JList [?p0])"
    by (simp add: demo_profile_def)
  have c: "getfirst (JList [?p0]) = Inr ?p0" by simp
  have d: "path ?p0 [''graphql'', ''user''] = Inr ?user" by simp
  have e: "getitem ?user ''is_private'' = Inr (JBool True)" by simp
  have f: "getitem ?user ''followed_by_viewer'' = Inr (JBool False)" by simp
  have g: "getitem ?user ''id'' = Inr (JStr ''42'')" by simp
  have h: "getitem ?ud ''rhx_gis'' = Inr (JStr ''rhx'')"
    by (simp add: demo_profile_def)
  have k: "connected_id [\<lparr>ck_name = ''ds_user_id'', ck_value = Some ''7''\<rparr>] \<noteq> JStr ''42''"
    by (simp add: connected_id_def)
  from private_profile_access [where shared = "\<lambda>url. Inr ?ud" and sess = ?sess, OF a b c d e f g h] k
  show ?thesis by (simp add: demo_session_def private_msg_def)
qed

text \<open>When the page cannot be fetched or holds no payload that decodes, the ValueError or
  AttributeError raised is reported as an account not found, with the handle.\<close>

lemma unresolvable_payload_not_found:
  assumes "(\<exists>m. shared (''https://www.instagram.com/'' @ username @ ''/'') = Inl (ValueError m))
         \<or> shared (''https://www.instagram.com/'' @ username @ ''/'') = Inl AttributeError"
  shows "from_username shared sess username = Inl (ValueError (''account not found: '' @ username))"
  using assms by (auto simp: from_username_def user_data_def and_then_def)

text \<open>
  C9 does not hold of the code. A payload whose \<^verbatim>\<open>entry_data\<close> has no
  \<^verbatim>\<open>ProfilePage\<close> entry, the payload of the page of a handle that does not exist,
  makes \<^verbatim>\<open>from_username\<close> raise KeyError: the subscripts are outside the \<^verbatim>\<open>try\<close>
  block of \<^verbatim>\<open>_user_data\<close>, which alone reports an account not found.
\<close>

theorem missing_profile_page_key_error:
  "from_username
     (\<lambda>url. Inr (JObj [(''entry_data'', JObj [(''HttpErrorPage'', JList [JObj []])]),
                        (''rhx_gis'', JStr ''rhx'')]))
     (demo_session []) ''nobody'' = Inl KeyError"
  by (simp add: from_username_def user_data_def and_then_def)

end
